theory Spec2Isabelle
  imports Main
begin

section \<open>Conventions\<close>

text \<open>
  The source (\<^verbatim>\<open>matrix.py\<close>) describes a synchronous circuit. Every wire carries an
  unsigned number; a wire of length \<open>n\<close> carries a value below \<open>2 ^ n\<close>. Wires are
  modelled as \<open>nat\<close> (one-bit control wires as \<open>bool\<close>), with the lengths kept as
  separate parameters and every truncation of the source written out as \<open>mod 2 ^ n\<close>.
  A function of the source that builds hardware becomes
  \<^item> a record of its registers (all registers are 0 after reset),
  \<^item> definitions for its combinational wires, and
  \<^item> a step function giving the register contents of the next cycle.
  A \<^verbatim>\<open>conditional_assignment\<close> block is a priority chain: the \<^verbatim>\<open>with\<close> branches
  of one nesting level are \<open>if / else if\<close>; a branch after \<^verbatim>\<open>otherwise\<close> starts a new
  chain; a register keeps its value when no branch assigns it, a wire is 0 then. Only
  the operator \<^verbatim>\<open>|=\<close> is guarded by the enclosing branches; \<^verbatim>\<open><<=\<close> assigns in
  every cycle.
\<close>

definition DATWIDTH :: nat where
  "DATWIDTH = 8"

definition MATSIZE :: nat where
  "MATSIZE = 4"

definition ACCSIZE :: nat where
  "ACCSIZE = 512"

section \<open>MAC: the processing element\<close>

datatype build_error = Expected_8_bit_value | Expected_1_bit_control_signal

text \<open>
  The two length checks at the head of \<^verbatim>\<open>MAC\<close>. Python reads the chained comparison
  \<^verbatim>\<open>a != b != c\<close> as \<^verbatim>\<open>a != b and b != c\<close>. The arguments are the configured width and
  the lengths of the wires \<^verbatim>\<open>data_in\<close>, \<^verbatim>\<open>switchw\<close>, \<^verbatim>\<open>weight_in\<close> and \<^verbatim>\<open>weight_we\<close>;
  \<open>None\<close> means that no exception is raised.
\<close>

definition MAC_check :: "nat \<Rightarrow> nat \<Rightarrow> nat \<Rightarrow> nat \<Rightarrow> nat \<Rightarrow> build_error option" where
  "MAC_check data_width len_data len_switchw len_weight len_we =
     (if len_weight \<noteq> len_data \<and> len_data \<noteq> data_width then Some Expected_8_bit_value
      else if len_switchw \<noteq> len_we \<and> len_we \<noteq> 1 then Some Expected_1_bit_control_signal
      else None)"

text \<open>The lengths of the wires a cell is built from.\<close>

record mac_lens =
  len_data_in :: nat
  len_acc_in :: nat
  len_weight_in :: nat
  len_weight_tag :: nat

text \<open>The values on the input wires of a cell in one cycle.\<close>

record mac_inputs =
  data_in :: nat
  acc_in :: nat
  switchw :: bool
  weight_in :: nat
  weight_we :: bool
  weight_tag :: nat

text \<open>The registers of a cell.\<close>

record mac_regs =
  wbuf1 :: nat
  wbuf2 :: nat
  current_buffer_reg :: bool
  data_reg :: nat
  switch_reg :: bool
  acc_reg :: nat
  weight_reg :: nat
  weight_we_reg :: bool
  weight_tag_reg :: nat

definition mac_reset :: mac_regs where
  "mac_reset = \<lparr>wbuf1 = 0, wbuf2 = 0, current_buffer_reg = False, data_reg = 0,
     switch_reg = False, acc_reg = 0, weight_reg = 0, weight_we_reg = False,
     weight_tag_reg = 0\<rparr>"

text \<open>\<^verbatim>\<open>current_buffer = current_buffer_reg ^ switchw\<close>\<close>

definition current_buffer :: "mac_regs \<Rightarrow> mac_inputs \<Rightarrow> bool" where
  "current_buffer r i = (current_buffer_reg r \<noteq> switchw i)"

text \<open>\<^verbatim>\<open>weight = select(current_buffer, wbuf2, wbuf1)\<close>\<close>

definition MAC_weight :: "mac_regs \<Rightarrow> mac_inputs \<Rightarrow> nat" where
  "MAC_weight r i = (if current_buffer r i then wbuf2 r else wbuf1 r)"

text \<open>\<^verbatim>\<open>product = weight * data_in\<close>: a wire as long as both operands together.\<close>

definition MAC_product :: "mac_regs \<Rightarrow> mac_inputs \<Rightarrow> nat" where
  "MAC_product r i = MAC_weight r i * data_in i"

definition product_len :: "mac_lens \<Rightarrow> nat" where
  "product_len L = len_weight_in L + len_data_in L"

text \<open>
  \<^verbatim>\<open>out = product + acc_in\<close> is one bit longer than its longer operand, and is cut to
  its low 32 bits when it is longer than 32.
\<close>

definition sum_len :: "mac_lens \<Rightarrow> nat" where
  "sum_len L = max (product_len L) (len_acc_in L) + 1"

definition out_len :: "mac_lens \<Rightarrow> nat" where
  "out_len L = (if sum_len L > 32 then 32 else sum_len L)"

definition MAC_out :: "mac_lens \<Rightarrow> mac_regs \<Rightarrow> mac_inputs \<Rightarrow> nat" where
  "MAC_out L r i =
     (let out = MAC_product r i + acc_in i
      in if sum_len L > 32 then out mod 2 ^ 32 else out)"

text \<open>
  The condition of the weight write. The tag is compared with the module constant
  \<^verbatim>\<open>MATSIZE - 1\<close>, not with the parameter \<^verbatim>\<open>matrix_size\<close>.
\<close>

definition weight_write :: "mac_inputs \<Rightarrow> bool" where
  "weight_write i = (weight_we i \<and> weight_tag i = MATSIZE - 1)"

text \<open>
  One clock edge of a cell. The parameters \<^verbatim>\<open>data_width\<close> and \<^verbatim>\<open>matrix_size\<close> are
  kept although the source reads them in the length checks only.
\<close>

definition MAC_step :: "nat \<Rightarrow> nat \<Rightarrow> mac_lens \<Rightarrow> mac_regs \<Rightarrow> mac_inputs \<Rightarrow> mac_regs" where
  "MAC_step data_width matrix_size L r i =
     \<lparr>wbuf1 = (if weight_write i \<and> current_buffer r i then weight_in i else wbuf1 r),
      wbuf2 = (if weight_write i \<and> \<not> current_buffer r i then weight_in i else wbuf2 r),
      current_buffer_reg = (if switchw i then \<not> current_buffer_reg r else current_buffer_reg r),
      data_reg = data_in i,
      switch_reg = switchw i,
      acc_reg = MAC_out L r i,
      weight_reg = weight_in i,
      weight_we_reg = weight_we i,
      weight_tag_reg = (weight_tag i + 1) mod 2 ^ len_weight_tag L\<rparr>"

text \<open>The buffer that the multiplier does not read, by the stored selector.\<close>

definition inactive_by_reg :: "mac_regs \<Rightarrow> nat" where
  "inactive_by_reg r = (if current_buffer_reg r then wbuf1 r else wbuf2 r)"


section \<open>Register lengths computed by the source's loops\<close>

text \<open>
  \<^verbatim>\<open>size = 1; while pow(2, size) < bound: size = size + 1\<close> (in \<^verbatim>\<open>MMArray\<close>).
\<close>

function inc_while :: "nat \<Rightarrow> nat \<Rightarrow> nat" where
  "inc_while bound w = (if 2 ^ w < bound then inc_while bound (w + 1) else w)"
  by pat_completeness auto
termination
  by (relation "measure (\<lambda>(bound, w). bound - 2 ^ w)") (auto intro: diff_less_mono2)

text \<open>
  \<^verbatim>\<open>size = 1; while pow(2, size) < bound: size = size << 1\<close> (in \<^verbatim>\<open>FIFO\<close> and \<^verbatim>\<open>MMU\<close>).
  The source enters the loop with 1 only; the test \<open>0 < w\<close> makes the function total
  (from 0 the Python loop would not end) and is true on every value the loop reaches.
\<close>

function shl_while :: "nat \<Rightarrow> nat \<Rightarrow> nat" where
  "shl_while bound w = (if 0 < w \<and> 2 ^ w < bound then shl_while bound (w * 2) else w)"
  by pat_completeness auto
termination
proof (relation "measure (\<lambda>(bound, w). bound - 2 ^ w)")
  show "wf (measure (\<lambda>(bound, w). bound - 2 ^ w))"
    by simp
next
  fix bound w :: nat
  assume a: "0 < w \<and> 2 ^ w < bound"
  then have "w < w * 2"
    by simp
  then have "(2::nat) ^ w < 2 ^ (w * 2)"
    by simp
  with a show "((bound, w * 2), (bound, w)) \<in> measure (\<lambda>(bound, w). bound - 2 ^ w)"
    by (simp add: diff_less_mono2)
qed

section \<open>FIFO: the weight prefetch queue\<close>

text \<open>
  \<^verbatim>\<open>FIFO(matsize, mem_data, mem_valid, next_tile)\<close>. The parameters of the model are
  \<^verbatim>\<open>matsize\<close> and the length of the wire \<^verbatim>\<open>mem_data\<close>. The divisions are Python 2
  integer divisions.
\<close>

definition totalsize :: "nat \<Rightarrow> nat" where
  "totalsize matsize = matsize * matsize"

definition tilesize :: "nat \<Rightarrow> nat" where
  "tilesize matsize = totalsize matsize * 8"

definition ddrwidth :: "nat \<Rightarrow> nat" where
  "ddrwidth len_mem_data = len_mem_data div 8"

text \<open>The length of the register \<^verbatim>\<open>state\<close>.\<close>

definition state_len :: "nat \<Rightarrow> nat \<Rightarrow> nat" where
  "state_len matsize len_mem_data =
     shl_while (totalsize matsize div ddrwidth len_mem_data) 1"

text \<open>\<^verbatim>\<open>len(topbuf)\<close>, the number of staging registers.\<close>

definition topbuf_count :: "nat \<Rightarrow> nat \<Rightarrow> nat" where
  "topbuf_count matsize len_mem_data = max 1 (totalsize matsize div ddrwidth len_mem_data)"

record fifo_inputs =
  mem_data :: nat
  mem_valid :: bool
  next_tile :: bool

record fifo_regs =
  state :: nat
  topbuf :: "nat list"
  full :: bool
  buf2 :: nat
  buf3 :: nat
  buf4 :: nat
  empty2 :: bool
  empty3 :: bool
  empty4 :: bool

definition FIFO_reset :: "nat \<Rightarrow> nat \<Rightarrow> fifo_regs" where
  "FIFO_reset matsize len_mem_data =
     \<lparr>state = 0, topbuf = replicate (topbuf_count matsize len_mem_data) 0, full = False,
      buf2 = 0, buf3 = 0, buf4 = 0, empty2 = False, empty3 = False, empty4 = False\<rparr>"

text \<open>
  \<^verbatim>\<open>concat_list\<close> of wires of length \<open>w\<close>: the first wire of the list is the least
  significant part of the result.
\<close>

fun concat_list :: "nat \<Rightarrow> nat list \<Rightarrow> nat" where
  "concat_list w [] = 0"
| "concat_list w (x # xs) = x + 2 ^ w * concat_list w xs"

text \<open>
  The block "Handle moving data between the buffers" is one priority chain of three
  branches. At most one of them is taken in a cycle.
\<close>

datatype fifo_move = Top_to_buf2 | Buf2_to_buf3 | Buf3_to_buf4 | No_move

definition fifo_move_of :: "fifo_regs \<Rightarrow> fifo_move" where
  "fifo_move_of r =
     (if full r \<and> empty2 r then Top_to_buf2
      else if empty3 r \<and> \<not> empty2 r then Buf2_to_buf3
      else if empty4 r \<and> \<not> empty3 r then Buf3_to_buf4
      else No_move)"

text \<open>The wire \<^verbatim>\<open>cleartop\<close>: 1 in the first branch of the chain, 0 otherwise.\<close>

definition cleartop :: "fifo_regs \<Rightarrow> bool" where
  "cleartop r = (fifo_move_of r = Top_to_buf2)"

text \<open>The condition under which \<^verbatim>\<open>full.next\<close> is set to 1.\<close>

definition raise_full :: "nat \<Rightarrow> nat \<Rightarrow> fifo_regs \<Rightarrow> fifo_inputs \<Rightarrow> bool" where
  "raise_full matsize len_mem_data r i =
     (mem_valid i \<and> state r = topbuf_count matsize len_mem_data)"

text \<open>
  One clock edge of the queue. The staging registers are assigned with \<^verbatim>\<open><<=\<close>, which
  the enclosing \<^verbatim>\<open>with\<close> branches do not guard: each of them takes \<^verbatim>\<open>mem_data\<close> (cut to
  the register's length) in every cycle. \<^verbatim>\<open>buf2\<close> takes the low \<^verbatim>\<open>tilesize\<close> bits of the
  concatenated staging registers.
\<close>

definition FIFO_step :: "nat \<Rightarrow> nat \<Rightarrow> fifo_regs \<Rightarrow> fifo_inputs \<Rightarrow> fifo_regs" where
  "FIFO_step matsize len_mem_data r i =
     (let m = fifo_move_of r; burst_len = ddrwidth len_mem_data * 8 in
      \<lparr>state = (if mem_valid i then (state r + 1) mod 2 ^ state_len matsize len_mem_data
                else state r),
       topbuf = map (\<lambda>reg. mem_data i mod 2 ^ burst_len) (topbuf r),
       full = (if raise_full matsize len_mem_data r i then True
               else if cleartop r then False else full r),
       buf2 = (if m = Top_to_buf2
               then concat_list burst_len (topbuf r) mod 2 ^ tilesize matsize else buf2 r),
       buf3 = (if m = Buf2_to_buf3 then buf2 r else buf3 r),
       buf4 = (if m = Buf3_to_buf4 then buf3 r else buf4 r),
       empty2 = (if m = Top_to_buf2 then False
                 else if m = Buf2_to_buf3 then True else empty2 r),
       empty3 = (if m = Buf2_to_buf3 then False
                 else if m = Buf3_to_buf4 then True else empty3 r),
       empty4 = (if m = Buf3_to_buf4 then False else empty4 r)\<rparr>)"

text \<open>The outputs \<^verbatim>\<open>tile\<close> (the register \<^verbatim>\<open>buf4\<close>) and \<^verbatim>\<open>ready\<close>.\<close>

definition FIFO_tile :: "fifo_regs \<Rightarrow> nat" where
  "FIFO_tile r = buf4 r"

definition FIFO_ready :: "fifo_regs \<Rightarrow> fifo_inputs \<Rightarrow> bool" where
  "FIFO_ready r i = (\<not> empty4 r \<and> \<not> next_tile i)"

text \<open>The registers after the cycles whose inputs are listed, first cycle first.\<close>

fun FIFO_run :: "nat \<Rightarrow> nat \<Rightarrow> fifo_regs \<Rightarrow> fifo_inputs list \<Rightarrow> fifo_regs" where
  "FIFO_run matsize len_mem_data r [] = r"
| "FIFO_run matsize len_mem_data r (i # is) =
     FIFO_run matsize len_mem_data (FIFO_step matsize len_mem_data r i) is"


section \<open>systolic\_setup: the vector skew buffer\<close>

text \<open>
  A chain of registers, the first register first: in a cycle the first register takes
  the chain's input and every other register takes its predecessor. The wire that
  leaves the chain is the last register (the input itself for a chain of no registers).
\<close>

definition chain_step :: "'a \<Rightarrow> 'a list \<Rightarrow> 'a list" where
  "chain_step x regs = butlast (x # regs)"

definition chain_out :: "'a \<Rightarrow> 'a list \<Rightarrow> 'a" where
  "chain_out x regs = last (x # regs)"

record setup_inputs =
  vec_in :: nat
  waddr :: nat
  valid :: bool
  clearbit :: bool
  lastvec :: bool
  switch :: bool

text \<open>
  \<open>diag ! row\<close> is the chain of row \<open>row\<close>: \<^verbatim>\<open>firstcolumn[row]\<close> and the \<open>row\<close> buffers
  after it. \<open>addrpipe\<close>, \<open>wepipe\<close>, \<open>clearpipe\<close> and \<open>donepipe\<close> are the registers
  \<^verbatim>\<open>a\<close>, \<^verbatim>\<open>w\<close>, \<^verbatim>\<open>c\<close> and \<^verbatim>\<open>d\<close> of the control pipeline loop, \<^verbatim>\<open>matsize\<close> of each.
\<close>

record setup_regs =
  addrreg :: nat
  wereg :: bool
  clearreg :: bool
  donereg :: bool
  diag :: "nat list list"
  switchout :: "bool list"
  addrpipe :: "nat list"
  wepipe :: "bool list"
  clearpipe :: "bool list"
  donepipe :: "bool list"

definition setup_reset :: "nat \<Rightarrow> setup_regs" where
  "setup_reset matsize =
     \<lparr>addrreg = 0, wereg = False, clearreg = False, donereg = False,
      diag = map (\<lambda>row. replicate (row + 1) 0) [0..<matsize],
      switchout = replicate matsize False,
      addrpipe = replicate matsize 0, wepipe = replicate matsize False,
      clearpipe = replicate matsize False, donepipe = replicate matsize False\<rparr>"

text \<open>\<^verbatim>\<open>datain[i] = vec_in[i*DATWIDTH : i*DATWIDTH+DATWIDTH]\<close>\<close>

definition datain :: "setup_inputs \<Rightarrow> nat \<Rightarrow> nat" where
  "datain i row = (vec_in i div 2 ^ (row * DATWIDTH)) mod 2 ^ DATWIDTH"

text \<open>
  One clock edge. The address, write-enable and clear chains are fed from the
  registers \<^verbatim>\<open>addrreg\<close>, \<^verbatim>\<open>wereg\<close> and \<^verbatim>\<open>clearreg\<close>; the done chain is fed from the
  input \<^verbatim>\<open>lastvec\<close> (\<^verbatim>\<open>doneout = lastvec\<close>), and \<^verbatim>\<open>donereg\<close> feeds nothing.
\<close>

definition systolic_setup_step :: "nat \<Rightarrow> setup_regs \<Rightarrow> setup_inputs \<Rightarrow> setup_regs" where
  "systolic_setup_step matsize r i =
     \<lparr>addrreg = waddr i, wereg = valid i, clearreg = clearbit i, donereg = lastvec i,
      diag = map (\<lambda>row. chain_step (datain i row) (diag r ! row)) [0..<matsize],
      switchout = chain_step (switch i) (switchout r),
      addrpipe = chain_step (addrreg r) (addrpipe r),
      wepipe = chain_step (wereg r) (wepipe r),
      clearpipe = chain_step (clearreg r) (clearpipe r),
      donepipe = chain_step (lastvec i) (donepipe r)\<rparr>"

text \<open>The outputs.\<close>

definition lastcolumn :: "setup_regs \<Rightarrow> nat \<Rightarrow> nat" where
  "lastcolumn r row = last (diag r ! row)"

definition addrout :: "setup_regs \<Rightarrow> nat" where
  "addrout r = chain_out (addrreg r) (addrpipe r)"

definition weout :: "setup_regs \<Rightarrow> bool" where
  "weout r = chain_out (wereg r) (wepipe r)"

definition clearout :: "setup_regs \<Rightarrow> bool" where
  "clearout r = chain_out (clearreg r) (clearpipe r)"

definition doneout :: "setup_regs \<Rightarrow> setup_inputs \<Rightarrow> bool" where
  "doneout r i = chain_out (lastvec i) (donepipe r)"

text \<open>The registers at the start of cycle \<open>k\<close>, when cycle \<open>c\<close> has the inputs \<open>ins c\<close>.\<close>

primrec systolic_setup_run :: "nat \<Rightarrow> (nat \<Rightarrow> setup_inputs) \<Rightarrow> nat \<Rightarrow> setup_regs" where
  "systolic_setup_run matsize ins 0 = setup_reset matsize"
| "systolic_setup_run matsize ins (Suc k) =
     systolic_setup_step matsize (systolic_setup_run matsize ins k) (ins k)"

section \<open>accum and accumulators\<close>

record accum_regs =
  mem :: "nat \<Rightarrow> nat"
  waddrsave :: nat
  wensave :: bool
  wclearsave :: bool
  lastsave :: bool

text \<open>The control wires that enter one accumulator.\<close>

record accum_ctrl =
  ac_waddr :: nat
  ac_wen :: bool
  ac_wclear :: bool
  ac_lastvec :: bool

definition accum_reset :: accum_regs where
  "accum_reset = \<lparr>mem = (\<lambda>a. 0), waddrsave = 0, wensave = False, wclearsave = False,
     lastsave = False\<rparr>"

text \<open>One clock edge of \<^verbatim>\<open>accum\<close>; \<open>d\<close> is the value on \<^verbatim>\<open>data_in\<close>. Memory cells have 32 bits.\<close>

definition accum_step :: "accum_regs \<Rightarrow> nat \<Rightarrow> accum_ctrl \<Rightarrow> accum_regs" where
  "accum_step r d c =
     \<lparr>mem = (if ac_wen c
              then (mem r)(ac_waddr c :=
                     (if ac_wclear c then d mod 2 ^ 32
                      else (d + mem r (ac_waddr c)) mod 2 ^ 32))
              else mem r),
      waddrsave = ac_waddr c, wensave = ac_wen c, wclearsave = ac_wclear c,
      lastsave = ac_lastvec c\<rparr>"

text \<open>
  \<^verbatim>\<open>accumulators\<close>: accumulator 0 is fed from the arguments, accumulator \<open>j + 1\<close> from
  the pipeline registers of accumulator \<open>j\<close>.
\<close>

definition accum_ctrl_in :: "accum_regs list \<Rightarrow> accum_ctrl \<Rightarrow> nat \<Rightarrow> accum_ctrl" where
  "accum_ctrl_in accs c j =
     (if j = 0 then c
      else \<lparr>ac_waddr = waddrsave (accs ! (j - 1)), ac_wen = wensave (accs ! (j - 1)),
            ac_wclear = wclearsave (accs ! (j - 1)), ac_lastvec = lastsave (accs ! (j - 1))\<rparr>)"

definition accumulators_step :: "accum_regs list \<Rightarrow> nat list \<Rightarrow> accum_ctrl \<Rightarrow> accum_regs list" where
  "accumulators_step accs datas_in c =
     map (\<lambda>j. accum_step (accs ! j) (datas_in ! j) (accum_ctrl_in accs c j)) [0..<length accs]"

text \<open>The outputs: the cells read at \<^verbatim>\<open>raddr\<close>, and \<^verbatim>\<open>done\<close>.\<close>

definition accout :: "accum_regs list \<Rightarrow> nat \<Rightarrow> nat list" where
  "accout accs raddr = map (\<lambda>a. mem a raddr) accs"

definition accumulators_done :: "accum_regs list \<Rightarrow> bool" where
  "accumulators_done accs = lastsave (last accs)"

section \<open>MMU: the tile controller\<close>

text \<open>
  The queue's output \<^verbatim>\<open>tile_ready\<close> is read by the controller, and the controller's
  wire \<^verbatim>\<open>done_programming\<close> is the queue's input \<^verbatim>\<open>next_tile\<close>, which \<^verbatim>\<open>tile_ready\<close>
  reads in the same cycle. The controller is therefore modelled with \<^verbatim>\<open>tile_ready\<close> as
  an input of every cycle, and what is proved of it holds for every value of that input.
\<close>

datatype sim_error = Weights_are_not_ready_to_switch

record ctrl_regs =
  weights_wait :: nat
  weights_count :: nat
  startup :: bool

definition ctrl_reset :: ctrl_regs where
  "ctrl_reset = \<lparr>weights_wait = 0, weights_count = 0, startup = False\<rparr>"

text \<open>The lengths of the registers \<^verbatim>\<open>weights_wait\<close> and \<^verbatim>\<open>weights_count\<close>.\<close>

definition logn1 :: "nat \<Rightarrow> nat" where
  "logn1 matrix_size = shl_while (matrix_size + 1) 1"

definition logn :: "nat \<Rightarrow> nat" where
  "logn matrix_size = shl_while matrix_size 1"

definition totalwait :: "nat \<Rightarrow> nat" where
  "totalwait matrix_size = matrix_size + 1"

text \<open>The first branch of the second chain: "Ready to push new weights in".\<close>

definition push_ready :: "nat \<Rightarrow> ctrl_regs \<Rightarrow> bool \<Rightarrow> bool" where
  "push_ready matrix_size r tile_ready =
     (weights_wait r = totalwait matrix_size \<and> tile_ready)"

text \<open>The wires \<^verbatim>\<open>done_programming\<close> (second branch) and \<^verbatim>\<open>weights_we\<close> (\<^verbatim>\<open>otherwise\<close>).\<close>

definition done_programming :: "nat \<Rightarrow> ctrl_regs \<Rightarrow> bool \<Rightarrow> bool" where
  "done_programming matrix_size r tile_ready =
     (\<not> push_ready matrix_size r tile_ready \<and> weights_count r = matrix_size)"

definition MMU_weights_we :: "nat \<Rightarrow> ctrl_regs \<Rightarrow> bool \<Rightarrow> bool" where
  "MMU_weights_we matrix_size r tile_ready =
     (\<not> push_ready matrix_size r tile_ready \<and> weights_count r \<noteq> matrix_size)"

text \<open>The wire given to \<^verbatim>\<open>rtl_assert\<close>; the simulation raises when it is 0.\<close>

definition switch_assertion :: "ctrl_regs \<Rightarrow> bool \<Rightarrow> bool" where
  "switch_assertion r switch_weights = (\<not> (switch_weights \<and> weights_wait r \<noteq> 0))"

definition weights_wait_next :: "nat \<Rightarrow> ctrl_regs \<Rightarrow> bool \<Rightarrow> nat" where
  "weights_wait_next matrix_size r switch_weights =
     (if \<not> startup r then totalwait matrix_size mod 2 ^ logn1 matrix_size
      else if switch_weights then 1 mod 2 ^ logn1 matrix_size
      else if weights_wait r \<noteq> totalwait matrix_size
        then (weights_wait r + 1) mod 2 ^ logn1 matrix_size
      else if weights_count r \<noteq> 0 then 0
      else weights_wait r)"

definition weights_count_next :: "nat \<Rightarrow> ctrl_regs \<Rightarrow> bool \<Rightarrow> nat" where
  "weights_count_next matrix_size r tile_ready =
     (if push_ready matrix_size r tile_ready then 1 mod 2 ^ logn matrix_size
      else if weights_count r = matrix_size then 0
      else (weights_count r + 1) mod 2 ^ logn matrix_size)"

text \<open>One cycle of the controller: the exception of the assertion, or the next registers.\<close>

definition MMU_step :: "nat \<Rightarrow> ctrl_regs \<Rightarrow> bool \<Rightarrow> bool \<Rightarrow> sim_error + ctrl_regs" where
  "MMU_step matrix_size r switch_weights tile_ready =
     (if \<not> switch_assertion r switch_weights then Inl Weights_are_not_ready_to_switch
      else Inr \<lparr>weights_wait = weights_wait_next matrix_size r switch_weights,
                weights_count = weights_count_next matrix_size r tile_ready,
                startup = True\<rparr>)"

text \<open>
  A run of the controller; each cycle is given as the pair
  \<open>(switch_weights, tile_ready)\<close>. The run stops at the first exception.
\<close>

fun MMU_run :: "nat \<Rightarrow> ctrl_regs \<Rightarrow> (bool \<times> bool) list \<Rightarrow> sim_error + ctrl_regs" where
  "MMU_run matrix_size r [] = Inr r"
| "MMU_run matrix_size r ((sw, tr) # is) =
     (case MMU_step matrix_size r sw tr of
        Inl e \<Rightarrow> Inl e
      | Inr r' \<Rightarrow> MMU_run matrix_size r' is)"


section \<open>MMArray: the systolic array and its programming sequencer\<close>

text \<open>
  The arguments of \<^verbatim>\<open>MMArray\<close> in one cycle: \<^verbatim>\<open>data_in\<close> and \<^verbatim>\<open>new_weights\<close> are lists
  with one wire per row, \<^verbatim>\<open>weights_in\<close> is the tile as one wire.
\<close>

record array_inputs =
  data_in_arr :: "nat list"
  new_weights :: "bool list"
  weights_in :: nat
  weights_we :: bool

text \<open>
  The registers: \<open>grid r i j\<close> are the registers of the cell in row \<open>i\<close> and column \<open>j\<close>
  (only \<open>i, j < matrix_size\<close> are cells of the array).
\<close>

record array_regs =
  grid :: "nat \<Rightarrow> nat \<Rightarrow> mac_regs"
  programming :: bool
  progstep :: nat

definition MMArray_reset :: array_regs where
  "MMArray_reset = \<lparr>grid = (\<lambda>i j. mac_reset), programming = False, progstep = 0\<rparr>"

text \<open>The length of the register \<^verbatim>\<open>progstep\<close>.\<close>

definition progstep_len :: nat where
  "progstep_len = inc_while MATSIZE 1"

text \<open>
  \<^verbatim>\<open>weight_arr[s]\<close> is the slice of \<^verbatim>\<open>rowsize\<close> bits of the tile that starts at bit
  \<^verbatim>\<open>s * rowsize\<close>; the weight of column \<open>j\<close> is the slice of \<^verbatim>\<open>data_width\<close> bits of the
  row that starts at bit \<^verbatim>\<open>j * data_width\<close>.
\<close>

definition rowsize :: "nat \<Rightarrow> nat \<Rightarrow> nat" where
  "rowsize data_width matrix_size = data_width * matrix_size"

definition weight_arr :: "nat \<Rightarrow> nat \<Rightarrow> nat \<Rightarrow> nat \<Rightarrow> nat" where
  "weight_arr data_width matrix_size tile s =
     (tile div 2 ^ (s * rowsize data_width matrix_size)) mod 2 ^ rowsize data_width matrix_size"

definition tile_weight :: "nat \<Rightarrow> nat \<Rightarrow> nat \<Rightarrow> nat \<Rightarrow> nat \<Rightarrow> nat" where
  "tile_weight data_width matrix_size tile s j =
     (weight_arr data_width matrix_size tile s div 2 ^ (j * data_width)) mod 2 ^ data_width"

text \<open>
  \<^verbatim>\<open>current_weights[j]\<close>: the row is chosen by \<^verbatim>\<open>mux(progstep, *weight_arr)\<close>.
\<close>

definition current_weights :: "nat \<Rightarrow> nat \<Rightarrow> array_regs \<Rightarrow> array_inputs \<Rightarrow> nat \<Rightarrow> nat" where
  "current_weights data_width matrix_size r inp j =
     tile_weight data_width matrix_size (weights_in inp) (progstep r) j"

text \<open>
  The wires that enter the cell in row \<open>i\<close> and column \<open>j\<close>: from the left neighbour (or
  the array's inputs in column 0) and from the cell above (or the sequencer and the
  constant 0 in row 0).
\<close>

definition cell_inputs :: "nat \<Rightarrow> nat \<Rightarrow> array_regs \<Rightarrow> array_inputs \<Rightarrow> nat \<Rightarrow> nat \<Rightarrow> mac_inputs" where
  "cell_inputs data_width matrix_size r inp i j =
     \<lparr>data_in = (if j = 0 then data_in_arr inp ! i else data_reg (grid r i (j - 1))),
      acc_in = (if i = 0 then 0 else acc_reg (grid r (i - 1) j)),
      switchw = (if j = 0 then new_weights inp ! i else switch_reg (grid r i (j - 1))),
      weight_in = (if i = 0 then current_weights data_width matrix_size r inp j
                   else weight_reg (grid r (i - 1) j)),
      weight_we = (if i = 0 then programming r else weight_we_reg (grid r (i - 1) j)),
      weight_tag = (if i = 0 then progstep r else weight_tag_reg (grid r (i - 1) j))\<rparr>"

text \<open>
  The lengths of the wires of the cells of row \<open>i\<close>. The accumulate input of row 0 is
  \<^verbatim>\<open>Const(0)\<close>, one bit long; below it is the \<^verbatim>\<open>acc_reg\<close> of the row above. The weight
  and tag wires have \<^verbatim>\<open>data_width\<close> bits; \<open>len_data\<close> is the length of the wires in
  \<^verbatim>\<open>data_in\<close>.
\<close>

primrec acc_in_len :: "nat \<Rightarrow> nat \<Rightarrow> nat \<Rightarrow> nat" where
  "acc_in_len data_width len_data 0 = 1"
| "acc_in_len data_width len_data (Suc i) =
     out_len \<lparr>len_data_in = len_data, len_acc_in = acc_in_len data_width len_data i,
              len_weight_in = data_width, len_weight_tag = data_width\<rparr>"

definition cell_lens :: "nat \<Rightarrow> nat \<Rightarrow> nat \<Rightarrow> mac_lens" where
  "cell_lens data_width len_data i =
     \<lparr>len_data_in = len_data, len_acc_in = acc_in_len data_width len_data i,
      len_weight_in = data_width, len_weight_tag = data_width\<rparr>"

text \<open>One clock edge of the array and its sequencer.\<close>

definition MMArray_step :: "nat \<Rightarrow> nat \<Rightarrow> nat \<Rightarrow> array_regs \<Rightarrow> array_inputs \<Rightarrow> array_regs" where
  "MMArray_step data_width matrix_size len_data r inp =
     \<lparr>grid = (\<lambda>i j. if i < matrix_size \<and> j < matrix_size
                then MAC_step data_width matrix_size (cell_lens data_width len_data i)
                       (grid r i j) (cell_inputs data_width matrix_size r inp i j)
                else grid r i j),
      programming = (if weights_we inp \<and> \<not> programming r then True
                     else if programming r \<and> progstep r = MATSIZE - 1 then False
                     else programming r),
      progstep = (if programming r then (progstep r + 1) mod 2 ^ progstep_len else 0)\<rparr>"

text \<open>The output \<^verbatim>\<open>data_out\<close>: the \<^verbatim>\<open>acc_reg\<close> of the last row.\<close>

definition data_out :: "nat \<Rightarrow> array_regs \<Rightarrow> nat list" where
  "data_out matrix_size r =
     map (\<lambda>j. if matrix_size = 0 then 0 else acc_reg (grid r (matrix_size - 1) j))
       [0..<matrix_size]"

text \<open>
  The registers at the start of cycle \<open>k\<close> of a run from the registers \<open>r\<close>, when cycle
  \<open>c\<close> has the inputs \<open>ins c\<close>.
\<close>

primrec MMArray_run :: "nat \<Rightarrow> nat \<Rightarrow> nat \<Rightarrow> (nat \<Rightarrow> array_inputs) \<Rightarrow> array_regs \<Rightarrow> nat \<Rightarrow> array_regs" where
  "MMArray_run data_width matrix_size len_data ins r 0 = r"
| "MMArray_run data_width matrix_size len_data ins r (Suc k) =
     MMArray_step data_width matrix_size len_data
       (MMArray_run data_width matrix_size len_data ins r k) (ins k)"


section \<open>Concrete inputs used below\<close>

text \<open>A cell whose stored selector says that \<^verbatim>\<open>wbuf1\<close> is current, and a cycle in which a
  weight with the matching tag arrives together with a switch request.\<close>

definition switching_cell :: mac_regs where
  "switching_cell = mac_reset\<lparr>wbuf1 := 1, wbuf2 := 2\<rparr>"

definition write_and_switch :: mac_inputs where
  "write_and_switch = \<lparr>data_in = 0, acc_in = 0, switchw = True, weight_in = 9,
     weight_we = True, weight_tag = 3\<rparr>"

text \<open>A cell of the shipped configuration and a cycle in which the 32-bit sum overflows.\<close>

definition lens_8_32 :: mac_lens where
  "lens_8_32 = \<lparr>len_data_in = 8, len_acc_in = 32, len_weight_in = 8, len_weight_tag = 8\<rparr>"

definition full_weight_cell :: mac_regs where
  "full_weight_cell = mac_reset\<lparr>wbuf1 := 255\<rparr>"

definition overflowing_inputs :: mac_inputs where
  "overflowing_inputs = \<lparr>data_in = 255, acc_in = 4294967295, switchw = False, weight_in = 0,
     weight_we = False, weight_tag = 0\<rparr>"

text \<open>A cycle in which the memory delivers a burst, and a cycle in which it does not.\<close>

definition one_burst :: fifo_inputs where
  "one_burst = \<lparr>mem_data = 7, mem_valid = True, next_tile = False\<rparr>"

definition no_burst :: fifo_inputs where
  "no_burst = \<lparr>mem_data = 0, mem_valid = False, next_tile = False\<rparr>"


text \<open>No stage is marked empty and the head register holds 0.\<close>

definition occupied_and_zero :: "fifo_regs \<Rightarrow> bool" where
  "occupied_and_zero r = (\<not> empty2 r \<and> \<not> empty3 r \<and> \<not> empty4 r \<and> buf4 r = 0)"

text \<open>A cycle of the controller without a switch request, the queue reporting ready.\<close>

definition idle_ready :: "bool \<times> bool" where
  "idle_ready = (False, True)"

text \<open>
  A stream of vectors for \<^verbatim>\<open>systolic_setup\<close>: cycle 0 brings a valid vector for address 3
  with the overwrite and last-vector flags set, every later cycle brings nothing.
\<close>

definition last_vector_only :: "nat \<Rightarrow> setup_inputs" where
  "last_vector_only c =
     (if c = 0
      then \<lparr>vec_in = 0, waddr = 3, valid = True, clearbit = True, lastvec = True,
            switch = False\<rparr>
      else \<lparr>vec_in = 0, waddr = 0, valid = False, clearbit = False, lastvec = False,
            switch = False\<rparr>)"

text \<open>
  The weight matrix at the end of the source, packed into a tile as \<^verbatim>\<open>testall\<close> packs
  it, and a stream of inputs for \<^verbatim>\<open>MMArray\<close> that holds this tile on \<^verbatim>\<open>weights_in\<close> and
  pulses \<^verbatim>\<open>weights_we\<close> in cycle 0.
\<close>

definition example_weights :: "nat list list" where
  "example_weights = [[2, 2, 8, 6], [10, 6, 2, 8], [10, 9, 8, 1], [1, 3, 6, 4]]"

definition example_tile :: nat where
  "example_tile = concat_list DATWIDTH (concat example_weights)"

definition load_tile :: "nat \<Rightarrow> array_inputs" where
  "load_tile c = \<lparr>data_in_arr = [0, 0, 0, 0], new_weights = [False, False, False, False],
     weights_in = example_tile, weights_we = (c = 0)\<rparr>"

section \<open>The register lengths of the shipped configuration\<close>

lemma logn_4: "logn 4 = 2"
  by (simp add: logn_def)

lemma logn1_4: "logn1 4 = 4"
  by (simp add: logn1_def)

lemma state_len_4_512: "state_len 4 512 = 1"
  by (simp add: state_len_def totalsize_def ddrwidth_def)

lemma topbuf_count_4_512: "topbuf_count 4 512 = 1"
  by (simp add: topbuf_count_def totalsize_def ddrwidth_def)

lemma progstep_len_2: "progstep_len = 2"
  by (simp add: progstep_len_def MATSIZE_def)

section \<open>The multiply-accumulate of a cell\<close>

lemma MAC_product_exact:
  assumes "MAC_weight r i < 2 ^ 8" and "data_in i < 2 ^ 8"
  shows "MAC_product r i < 2 ^ 16"
proof -
  have "MAC_weight r i * data_in i < 2 ^ 8 * 2 ^ 8"
    using assms by (intro mult_strict_mono) simp_all
  then show ?thesis
    by (simp add: MAC_product_def)
qed

text \<open>
  Claim C8. A cell built from an 8-bit weight, an 8-bit activation and a 32-bit partial
  sum multiplies the active weight by the activation without loss (the product is
  below \<open>2 ^ 16\<close>), and both the wire \<^verbatim>\<open>out\<close> and the register \<^verbatim>\<open>acc_reg\<close> of the next
  cycle are the sum of product and partial sum modulo \<open>2 ^ 32\<close>. The model has no other
  outcome of the cycle: no saturation, no error.
\<close>

theorem mac_out_wraps_mod_2_32:
  assumes "len_weight_in L = 8" and "len_data_in L = 8" and "len_acc_in L = 32"
    and "MAC_weight r i < 2 ^ 8" and "data_in i < 2 ^ 8" and "acc_in i < 2 ^ 32"
  shows "MAC_product r i = MAC_weight r i * data_in i
    \<and> MAC_product r i < 2 ^ 16
    \<and> MAC_out L r i = (MAC_weight r i * data_in i + acc_in i) mod 2 ^ 32
    \<and> acc_reg (MAC_step data_width matrix_size L r i)
        = (MAC_weight r i * data_in i + acc_in i) mod 2 ^ 32"
  using assms MAC_product_exact [of r i]
  by (simp add: MAC_out_def MAC_step_def sum_len_def product_len_def MAC_product_def)

theorem mac_out_wraps_mod_2_32_witness:
  "MAC_weight full_weight_cell overflowing_inputs = 255
   \<and> data_in overflowing_inputs = 255
   \<and> acc_in overflowing_inputs = 2 ^ 32 - 1
   \<and> MAC_product full_weight_cell overflowing_inputs = 65025
   \<and> MAC_out lens_8_32 full_weight_cell overflowing_inputs = 65024
   \<and> acc_reg (MAC_step 8 4 lens_8_32 full_weight_cell overflowing_inputs) = 65024"
  using mac_out_wraps_mod_2_32 [of lens_8_32 full_weight_cell overflowing_inputs 8 4]
  by (simp add: MAC_weight_def current_buffer_def mac_reset_def lens_8_32_def
      full_weight_cell_def overflowing_inputs_def)

section \<open>The weight write of a cell\<close>

text \<open>
  Claim C5, as the code has it. For a cell built with \<^verbatim>\<open>matrix_size\<close> equal to the module
  constant \<^verbatim>\<open>MATSIZE\<close>: in a cycle in which \<^verbatim>\<open>weight_we\<close> is set and the tag is
  \<open>matrix_size - 1\<close>, the incoming weight is written into the buffer that is inactive by
  the selector of this cycle, \<^verbatim>\<open>current_buffer_reg ^ switchw\<close> (\<^verbatim>\<open>wbuf1\<close> when that
  selector is 1, \<^verbatim>\<open>wbuf2\<close> when it is 0), and the other buffer keeps its value; in every
  other cycle both buffers keep their values.
\<close>

theorem weight_written_to_buffer_inactive_after_switch:
  assumes "matrix_size = MATSIZE"
  shows "if weight_we i \<and> weight_tag i = matrix_size - 1
     then (if current_buffer r i
           then wbuf1 (MAC_step data_width matrix_size L r i) = weight_in i
              \<and> wbuf2 (MAC_step data_width matrix_size L r i) = wbuf2 r
           else wbuf2 (MAC_step data_width matrix_size L r i) = weight_in i
              \<and> wbuf1 (MAC_step data_width matrix_size L r i) = wbuf1 r)
     else wbuf1 (MAC_step data_width matrix_size L r i) = wbuf1 r
        \<and> wbuf2 (MAC_step data_width matrix_size L r i) = wbuf2 r"
  using assms by (simp add: MAC_step_def weight_write_def)

theorem weight_written_to_buffer_inactive_after_switch_witness:
  "weight_we write_and_switch \<and> weight_tag write_and_switch = MATSIZE - 1
   \<and> current_buffer switching_cell write_and_switch
   \<and> wbuf1 (MAC_step DATWIDTH MATSIZE lens_8_32 switching_cell write_and_switch)
       = weight_in write_and_switch
   \<and> wbuf2 (MAC_step DATWIDTH MATSIZE lens_8_32 switching_cell write_and_switch)
       = wbuf2 switching_cell"
  using weight_written_to_buffer_inactive_after_switch
    [of MATSIZE write_and_switch switching_cell DATWIDTH lens_8_32]
  by (simp add: switching_cell_def write_and_switch_def mac_reset_def MATSIZE_def
      current_buffer_def)

text \<open>
  Claim C5 as stated fails: the stored selector of \<open>switching_cell\<close> is 0, so \<^verbatim>\<open>wbuf2\<close> is
  the buffer that is inactive by the stored selector; in a cycle with a matching
  weight write and a switch request \<^verbatim>\<open>wbuf2\<close> keeps its value 2 and the weight 9 goes to
  \<^verbatim>\<open>wbuf1\<close>.
\<close>

theorem write_ignores_stored_selector_counterexample:
  "weight_we write_and_switch \<and> weight_tag write_and_switch = MATSIZE - 1
   \<and> \<not> current_buffer_reg switching_cell
   \<and> inactive_by_reg switching_cell = wbuf2 switching_cell
   \<and> weight_in write_and_switch = 9
   \<and> wbuf2 (MAC_step DATWIDTH MATSIZE lens_8_32 switching_cell write_and_switch) = 2
   \<and> wbuf1 (MAC_step DATWIDTH MATSIZE lens_8_32 switching_cell write_and_switch) = 9"
  by (simp add: switching_cell_def write_and_switch_def mac_reset_def MATSIZE_def
      MAC_step_def weight_write_def current_buffer_def inactive_by_reg_def)

section \<open>The length checks of a cell\<close>

text \<open>
  Claim C9 fails on the code. No exception is raised for 16-bit activation and weight
  wires under a configured width of 8, for a 4-bit weight wire beside an 8-bit
  activation, or for two control wires of 2 bits each.
\<close>

theorem mac_check_misses_width_mismatch:
  "MAC_check 8 16 1 16 1 = None \<and> MAC_check 8 8 1 4 1 = None \<and> MAC_check 8 8 2 8 2 = None"
  by (simp add: MAC_check_def)

section \<open>The prefetch queue\<close>

lemma occupied_and_zero_reset: "occupied_and_zero (FIFO_reset matsize len_mem_data)"
  by (simp add: occupied_and_zero_def FIFO_reset_def)

lemma occupied_and_zero_step:
  "occupied_and_zero r \<Longrightarrow> occupied_and_zero (FIFO_step matsize len_mem_data r i)"
  by (simp add: occupied_and_zero_def FIFO_step_def fifo_move_of_def Let_def)

lemma occupied_and_zero_run:
  "occupied_and_zero r \<Longrightarrow> occupied_and_zero (FIFO_run matsize len_mem_data r ins)"
  by (induction ins arbitrary: r) (simp_all add: occupied_and_zero_step)

text \<open>
  Claim C10. After reset the three stage-empty flags are 0. After any cycles whatever
  (in particular after cycles without a memory burst, and after none at all) the head
  stage is still marked occupied, the exposed tile is 0, and \<^verbatim>\<open>ready\<close> is 1 exactly when
  \<^verbatim>\<open>next_tile\<close> is 0.
\<close>

theorem fifo_ready_with_zero_tile_from_reset:
  "\<not> empty2 (FIFO_reset matsize len_mem_data)
   \<and> \<not> empty3 (FIFO_reset matsize len_mem_data)
   \<and> \<not> empty4 (FIFO_reset matsize len_mem_data)
   \<and> \<not> empty4 (FIFO_run matsize len_mem_data (FIFO_reset matsize len_mem_data) ins)
   \<and> FIFO_tile (FIFO_run matsize len_mem_data (FIFO_reset matsize len_mem_data) ins) = 0
   \<and> FIFO_ready (FIFO_run matsize len_mem_data (FIFO_reset matsize len_mem_data) ins) i
       = (\<not> next_tile i)"
proof -
  have "occupied_and_zero (FIFO_run matsize len_mem_data (FIFO_reset matsize len_mem_data) ins)"
    by (rule occupied_and_zero_run) (rule occupied_and_zero_reset)
  moreover have "occupied_and_zero (FIFO_reset matsize len_mem_data)"
    by (rule occupied_and_zero_reset)
  ultimately show ?thesis
    by (simp add: occupied_and_zero_def FIFO_tile_def FIFO_ready_def)
qed

text \<open>
  Claim C7 fails on the code. In the shipped configuration (\<^verbatim>\<open>matsize\<close> 4, bursts of 512
  bits) there is one staging register. After the first burst the counter equals the
  number of staging registers and the register holds the burst, but \<^verbatim>\<open>full\<close> is 0, and it
  stays 0 in the cycles that follow; \<^verbatim>\<open>full\<close> is raised by a second burst only.
\<close>

theorem full_not_raised_by_last_burst:
  "topbuf_count 4 512 = 1
   \<and> state (FIFO_run 4 512 (FIFO_reset 4 512) [one_burst]) = 1
   \<and> topbuf (FIFO_run 4 512 (FIFO_reset 4 512) [one_burst]) = [7]
   \<and> \<not> full (FIFO_run 4 512 (FIFO_reset 4 512) [one_burst])
   \<and> \<not> full (FIFO_run 4 512 (FIFO_reset 4 512) [one_burst, no_burst, no_burst])
   \<and> full (FIFO_run 4 512 (FIFO_reset 4 512) [one_burst, one_burst])"
  by (simp add: topbuf_count_4_512 state_len_4_512 FIFO_reset_def FIFO_step_def
      one_burst_def no_burst_def raise_full_def cleartop_def fifo_move_of_def ddrwidth_def
      Let_def)




section \<open>The tile controller\<close>

text \<open>
  Claim C1 fails on the code. A cycle of the controller raises exactly when a switch is
  requested while \<^verbatim>\<open>weights_wait\<close> is not 0. After the first cycle the counter is at its
  maximum \<open>matrix_size + 1\<close>, and a switch request in the second cycle raises; a switch
  request in the very first cycle, with the counter at 0, raises nothing.
\<close>

theorem switch_at_full_wait_raises:
  "(\<exists>e. MMU_step matrix_size r sw tr = Inl e) = (sw \<and> weights_wait r \<noteq> 0)
   \<and> totalwait 4 = 4 + 1
   \<and> MMU_run 4 ctrl_reset [(False, tr0)]
       = Inr \<lparr>weights_wait = totalwait 4, weights_count = 1, startup = True\<rparr>
   \<and> MMU_run 4 ctrl_reset [(False, tr0), (True, tr1)] = Inl Weights_are_not_ready_to_switch
   \<and> weights_wait ctrl_reset = 0
   \<and> MMU_run 4 ctrl_reset [(True, tr0)]
       = Inr \<lparr>weights_wait = totalwait 4, weights_count = 1, startup = True\<rparr>"
  by (simp add: MMU_step_def switch_assertion_def ctrl_reset_def weights_wait_next_def
      weights_count_next_def push_ready_def totalwait_def logn_4 logn1_4)

text \<open>
  For \<^verbatim>\<open>matrix_size\<close> 4 the register \<^verbatim>\<open>weights_count\<close> has 2 bits: it never holds 4, and
  \<^verbatim>\<open>done_programming\<close> is never 1.
\<close>

lemma weights_count_below_4:
  "MMU_step 4 r sw tr = Inr r' \<Longrightarrow> weights_count r' < 4"
  by (auto simp add: MMU_step_def weights_count_next_def logn_4 split: if_splits)

lemma never_done_programming:
  "weights_count r < 4 \<Longrightarrow> \<not> done_programming 4 r tr"
  by (simp add: done_programming_def)

text \<open>
  Claim C4 fails on the code. In the first cycle after reset both counters are 0 and
  \<^verbatim>\<open>weights_we\<close> is 1, whatever the queue reports. After four cycles without a switch
  request the progress counter is 3; in the fifth cycle \<^verbatim>\<open>weights_we\<close> is 1 again,
  \<^verbatim>\<open>done_programming\<close> is 0, and the counter wraps to 0; in the sixth cycle \<^verbatim>\<open>weights_we\<close>
  is still 1 and \<^verbatim>\<open>done_programming\<close> is 0.
\<close>

theorem weights_we_outside_programming_pass:
  "weights_wait ctrl_reset = 0 \<and> weights_count ctrl_reset = 0
   \<and> MMU_weights_we 4 ctrl_reset True \<and> MMU_weights_we 4 ctrl_reset False
   \<and> MMU_run 4 ctrl_reset [idle_ready, idle_ready, idle_ready, idle_ready]
       = Inr \<lparr>weights_wait = 2, weights_count = 3, startup = True\<rparr>
   \<and> MMU_weights_we 4 \<lparr>weights_wait = 2, weights_count = 3, startup = True\<rparr> True
   \<and> \<not> done_programming 4 \<lparr>weights_wait = 2, weights_count = 3, startup = True\<rparr> True
   \<and> MMU_run 4 ctrl_reset [idle_ready, idle_ready, idle_ready, idle_ready, idle_ready]
       = Inr \<lparr>weights_wait = 3, weights_count = 0, startup = True\<rparr>
   \<and> MMU_weights_we 4 \<lparr>weights_wait = 3, weights_count = 0, startup = True\<rparr> True
   \<and> \<not> done_programming 4 \<lparr>weights_wait = 3, weights_count = 0, startup = True\<rparr> True"
  by (simp add: idle_ready_def MMU_step_def switch_assertion_def ctrl_reset_def
      weights_wait_next_def weights_count_next_def push_ready_def totalwait_def logn_4
      logn1_4 MMU_weights_we_def done_programming_def)

section \<open>The control pipeline of the skew buffer\<close>

lemma chain_step_length: "length (chain_step x regs) = length regs"
  by (simp add: chain_step_def)

lemma chain_step_nth:
  assumes "m < length regs"
  shows "chain_step x regs ! m = (if m = 0 then x else regs ! (m - 1))"
proof -
  from assms have "m < length (butlast (x # regs))"
    by (simp only: length_butlast length_Cons diff_Suc_1)
  then have "chain_step x regs ! m = (x # regs) ! m"
    unfolding chain_step_def by (rule nth_butlast)
  then show ?thesis
    by (cases m) simp_all
qed

lemma chain_out_nth:
  "chain_out x regs = (if regs = [] then x else regs ! (length regs - 1))"
  by (simp add: chain_out_def last_conv_nth)

text \<open>
  What enters a chain of \<open>n\<close> registers in cycle \<open>k\<close> stands in register \<open>m\<close> at the start
  of cycle \<open>k + m + 1\<close>, and leaves the chain in cycle \<open>k + n\<close>.
\<close>

lemma chain_delay:
  assumes step: "\<And>k. P (Suc k) = chain_step (x k) (P k)"
    and len: "\<And>k. length (P k) = n"
  shows "m < n \<Longrightarrow> P (k + m + 1) ! m = x k"
proof (induction m arbitrary: k)
  case 0
  have "P (k + 0 + 1) = chain_step (x k) (P k)"
    using step [of k] by simp
  then show ?case
    using 0 len [of k] by (simp add: chain_step_nth)
next
  case (Suc m)
  then have ih: "P (k + m + 1) ! m = x k"
    by simp
  have "P (k + Suc m + 1) = chain_step (x (k + m + 1)) (P (k + m + 1))"
    using step [of "k + m + 1"] by simp
  then have "P (k + Suc m + 1) ! Suc m = P (k + m + 1) ! m"
    using Suc.prems len [of "k + m + 1"] by (simp add: chain_step_nth)
  with ih show ?case
    by simp
qed

lemma chain_out_delay:
  assumes step: "\<And>k. P (Suc k) = chain_step (x k) (P k)"
    and len: "\<And>k. length (P k) = n"
  shows "chain_out (x (k + n)) (P (k + n)) = x k"
proof (cases n)
  case 0
  then show ?thesis
    using len [of k] by (simp add: chain_out_def)
next
  case (Suc m)
  then have "P (k + m + 1) ! m = x k"
    using chain_delay [of P x n m k, OF step len] by simp
  then show ?thesis
    using Suc len [of "k + n"] by (auto simp add: chain_out_nth)
qed

lemma donepipe_length: "length (donepipe (systolic_setup_run n ins k)) = n"
  by (induction k) (simp_all add: setup_reset_def systolic_setup_step_def chain_step_length)

lemma wepipe_length: "length (wepipe (systolic_setup_run n ins k)) = n"
  by (induction k) (simp_all add: setup_reset_def systolic_setup_step_def chain_step_length)

lemma addrpipe_length: "length (addrpipe (systolic_setup_run n ins k)) = n"
  by (induction k) (simp_all add: setup_reset_def systolic_setup_step_def chain_step_length)

lemma clearpipe_length: "length (clearpipe (systolic_setup_run n ins k)) = n"
  by (induction k) (simp_all add: setup_reset_def systolic_setup_step_def chain_step_length)

text \<open>
  The last-vector flag of cycle \<open>k\<close> leaves for the first accumulator in cycle
  \<open>k + matsize\<close>; write-enable, address and overwrite flag of cycle \<open>k\<close> leave in cycle
  \<open>k + matsize + 1\<close>.
\<close>

lemma doneout_delay:
  "doneout (systolic_setup_run n ins (k + n)) (ins (k + n)) = lastvec (ins k)"
  unfolding doneout_def
  by (rule chain_out_delay [of "\<lambda>k. donepipe (systolic_setup_run n ins k)"
        "\<lambda>k. lastvec (ins k)" n k])
    (simp_all add: systolic_setup_step_def donepipe_length)

lemma weout_delay:
  "weout (systolic_setup_run n ins (Suc (k + n))) = valid (ins k)"
proof -
  have "chain_out (wereg (systolic_setup_run n ins (Suc k + n)))
          (wepipe (systolic_setup_run n ins (Suc k + n)))
        = wereg (systolic_setup_run n ins (Suc k))"
    by (rule chain_out_delay [of "\<lambda>k. wepipe (systolic_setup_run n ins k)"
          "\<lambda>k. wereg (systolic_setup_run n ins k)" n "Suc k"])
      (simp_all add: systolic_setup_step_def wepipe_length)
  then show ?thesis
    by (simp add: weout_def systolic_setup_step_def)
qed

lemma addrout_delay:
  "addrout (systolic_setup_run n ins (Suc (k + n))) = waddr (ins k)"
proof -
  have "chain_out (addrreg (systolic_setup_run n ins (Suc k + n)))
          (addrpipe (systolic_setup_run n ins (Suc k + n)))
        = addrreg (systolic_setup_run n ins (Suc k))"
    by (rule chain_out_delay [of "\<lambda>k. addrpipe (systolic_setup_run n ins k)"
          "\<lambda>k. addrreg (systolic_setup_run n ins k)" n "Suc k"])
      (simp_all add: systolic_setup_step_def addrpipe_length)
  then show ?thesis
    by (simp add: addrout_def systolic_setup_step_def)
qed

lemma clearout_delay:
  "clearout (systolic_setup_run n ins (Suc (k + n))) = clearbit (ins k)"
proof -
  have "chain_out (clearreg (systolic_setup_run n ins (Suc k + n)))
          (clearpipe (systolic_setup_run n ins (Suc k + n)))
        = clearreg (systolic_setup_run n ins (Suc k))"
    by (rule chain_out_delay [of "\<lambda>k. clearpipe (systolic_setup_run n ins k)"
          "\<lambda>k. clearreg (systolic_setup_run n ins k)" n "Suc k"])
      (simp_all add: systolic_setup_step_def clearpipe_length)
  then show ?thesis
    by (simp add: clearout_def systolic_setup_step_def)
qed

text \<open>
  Claim C2 fails on the code. With \<^verbatim>\<open>matsize\<close> 4, the vector of cycle 0 (valid, address 3,
  overwrite, last vector) shows its last-vector flag at the first accumulator in cycle
  4, when write-enable, address and overwrite flag there are still those of reset; its
  write-enable, address and overwrite flag arrive in cycle 5, when the last-vector flag
  is 0 again.
\<close>

theorem lastvec_one_cycle_early:
  "doneout (systolic_setup_run 4 last_vector_only 4) (last_vector_only 4)
   \<and> \<not> weout (systolic_setup_run 4 last_vector_only 4)
   \<and> addrout (systolic_setup_run 4 last_vector_only 4) = 0
   \<and> \<not> clearout (systolic_setup_run 4 last_vector_only 4)
   \<and> weout (systolic_setup_run 4 last_vector_only 5)
   \<and> addrout (systolic_setup_run 4 last_vector_only 5) = 3
   \<and> clearout (systolic_setup_run 4 last_vector_only 5)
   \<and> \<not> doneout (systolic_setup_run 4 last_vector_only 5) (last_vector_only 5)"
proof -
  have early: "doneout (systolic_setup_run 4 last_vector_only 4) (last_vector_only 4)"
    and gone: "\<not> doneout (systolic_setup_run 4 last_vector_only 5) (last_vector_only 5)"
    using doneout_delay [of 4 last_vector_only 0] doneout_delay [of 4 last_vector_only 1]
    by (simp_all add: last_vector_only_def)
  have late: "weout (systolic_setup_run 4 last_vector_only 5)"
    "addrout (systolic_setup_run 4 last_vector_only 5) = 3"
    "clearout (systolic_setup_run 4 last_vector_only 5)"
    using weout_delay [of 4 last_vector_only 0] addrout_delay [of 4 last_vector_only 0]
      clearout_delay [of 4 last_vector_only 0]
    by (simp_all add: last_vector_only_def)
  have before: "\<not> weout (systolic_setup_run 4 last_vector_only 4)"
    "addrout (systolic_setup_run 4 last_vector_only 4) = 0"
    "\<not> clearout (systolic_setup_run 4 last_vector_only 4)"
    by (simp_all add: eval_nat_numeral setup_reset_def systolic_setup_step_def weout_def
        addrout_def clearout_def chain_out_def chain_step_def)
  from early gone late before show ?thesis
    by simp
qed

section \<open>The distribution of a tile over the array\<close>

lemma grid_step:
  "i < n \<Longrightarrow> j < n \<Longrightarrow>
   grid (MMArray_step dw n ld r inp) i j
     = MAC_step dw n (cell_lens dw ld i) (grid r i j) (cell_inputs dw n r inp i j)"
  by (simp add: MMArray_step_def)

text \<open>The cell below sees in the next cycle what a cell sees now, the tag raised by 1.\<close>

lemma weight_in_down:
  "i < n \<Longrightarrow> j < n \<Longrightarrow>
   weight_in (cell_inputs dw n (MMArray_step dw n ld r inp) inp' (Suc i) j)
     = weight_in (cell_inputs dw n r inp i j)"
  by (simp add: cell_inputs_def grid_step MAC_step_def)

lemma weight_we_down:
  "i < n \<Longrightarrow> j < n \<Longrightarrow>
   weight_we (cell_inputs dw n (MMArray_step dw n ld r inp) inp' (Suc i) j)
     = weight_we (cell_inputs dw n r inp i j)"
  by (simp add: cell_inputs_def grid_step MAC_step_def)

lemma weight_tag_down:
  "i < n \<Longrightarrow> j < n \<Longrightarrow>
   weight_tag (cell_inputs dw n (MMArray_step dw n ld r inp) inp' (Suc i) j)
     = (weight_tag (cell_inputs dw n r inp i j) + 1) mod 2 ^ dw"
  by (simp add: cell_inputs_def grid_step MAC_step_def cell_lens_def)

text \<open>What the sequencer drives into a column in cycle \<open>k\<close> reaches row \<open>r\<close> in cycle \<open>k + r\<close>.\<close>

lemma column_weight_in:
  "r < n \<Longrightarrow> j < n \<Longrightarrow>
   weight_in (cell_inputs dw n (MMArray_run dw n ld ins st (k + r)) (ins (k + r)) r j)
     = current_weights dw n (MMArray_run dw n ld ins st k) (ins k) j"
proof (induction r)
  case 0
  then show ?case
    by (simp add: cell_inputs_def)
next
  case (Suc r)
  then show ?case
    by (simp add: weight_in_down)
qed

lemma column_weight_we:
  "r < n \<Longrightarrow> j < n \<Longrightarrow>
   weight_we (cell_inputs dw n (MMArray_run dw n ld ins st (k + r)) (ins (k + r)) r j)
     = programming (MMArray_run dw n ld ins st k)"
proof (induction r)
  case 0
  then show ?case
    by (simp add: cell_inputs_def)
next
  case (Suc r)
  then show ?case
    by (simp add: weight_we_down)
qed

lemma column_weight_tag:
  "r < n \<Longrightarrow> j < n \<Longrightarrow>
   weight_tag (cell_inputs dw n (MMArray_run dw n ld ins st (k + r)) (ins (k + r)) r j)
     = (if r = 0 then progstep (MMArray_run dw n ld ins st k)
        else (progstep (MMArray_run dw n ld ins st k) + r) mod 2 ^ dw)"
proof (induction r)
  case 0
  then show ?case
    by (simp add: cell_inputs_def)
next
  case (Suc r)
  then show ?case
    by (simp add: weight_tag_down mod_Suc_eq)
qed

text \<open>
  After a pulse on \<^verbatim>\<open>weights_we\<close> while the sequencer is idle, it is programming with
  step \<open>s\<close> in cycle \<open>s + 1\<close>, for the \<^verbatim>\<open>MATSIZE\<close> steps.
\<close>

lemma sequencer_streams:
  assumes "\<not> programming st" and "weights_we (ins 0)"
  shows "s < MATSIZE \<Longrightarrow>
    programming (MMArray_run dw n ld ins st (Suc s))
    \<and> progstep (MMArray_run dw n ld ins st (Suc s)) = s"
proof (induction s)
  case 0
  then show ?case
    using assms by (simp add: MMArray_step_def)
next
  case (Suc s)
  then have "programming (MMArray_run dw n ld ins st (Suc s))"
    and "progstep (MMArray_run dw n ld ins st (Suc s)) = s" and "s < 3"
    by (simp_all add: MATSIZE_def)
  then show ?case
    by (simp add: progstep_len_2 MATSIZE_def
        MMArray_step_def [of dw n ld
          "MMArray_step dw n ld (MMArray_run dw n ld ins st s) (ins s)"])
qed

text \<open>A weight write leaves the weight in the buffer that the new stored selector
  marks inactive.\<close>

lemma inactive_after_write:
  "weight_write i \<Longrightarrow> inactive_by_reg (MAC_step dw n L r i) = weight_in i"
  by (simp add: inactive_by_reg_def MAC_step_def current_buffer_def)

lemma example_tile_1_3: "tile_weight DATWIDTH MATSIZE example_tile 1 3 = 8"
  by (simp add: tile_weight_def weight_arr_def rowsize_def example_tile_def
      example_weights_def DATWIDTH_def MATSIZE_def)

text \<open>
  Claim C3, for the array of the shipped configuration (\<^verbatim>\<open>data_width\<close> = \<^verbatim>\<open>DATWIDTH\<close>,
  \<^verbatim>\<open>matrix_size\<close> = \<^verbatim>\<open>MATSIZE\<close>). Start from any registers with the sequencer idle, pulse
  \<^verbatim>\<open>weights_we\<close> in cycle 0 and hold the tile on \<^verbatim>\<open>weights_in\<close> in the cycles 1 to
  \<^verbatim>\<open>MATSIZE\<close>; all other inputs are arbitrary. Then for every step \<open>s\<close>, row \<open>r\<close> and column
  \<open>j\<close> below \<^verbatim>\<open>MATSIZE\<close>:
  \<^item> in cycle \<open>1 + s\<close> the sequencer is programming and its step counter is \<open>s\<close>;
  \<^item> in cycle \<open>1 + s + r\<close> the cell in row \<open>r\<close> and column \<open>j\<close> sees the weight of row \<open>s\<close>
    and column \<open>j\<close> of the tile, with write-enable set and the tag \<open>s + r\<close>;
  \<^item> the cell writes this weight exactly if \<open>r = MATSIZE - 1 - s\<close>;
  \<^item> at the start of cycle \<open>1 + MATSIZE\<close>, after the \<^verbatim>\<open>MATSIZE\<close> cycles of streaming, the
    inactive buffer of the cell in row \<open>r\<close> and column \<open>j\<close> holds the weight of row
    \<open>MATSIZE - 1 - r\<close> and column \<open>j\<close> of the tile.
\<close>

theorem tile_distributed_after_matsize_cycles:
  assumes idle: "\<not> programming st" and pulse: "weights_we (ins 0)"
    and tile: "\<And>k. 1 \<le> k \<Longrightarrow> k \<le> MATSIZE \<Longrightarrow> weights_in (ins k) = tile"
    and s: "s < MATSIZE" and r: "r < MATSIZE" and j: "j < MATSIZE"
  shows "programming (MMArray_run DATWIDTH MATSIZE ld ins st (1 + s))
    \<and> progstep (MMArray_run DATWIDTH MATSIZE ld ins st (1 + s)) = s
    \<and> weight_in (cell_inputs DATWIDTH MATSIZE
          (MMArray_run DATWIDTH MATSIZE ld ins st (1 + s + r)) (ins (1 + s + r)) r j)
        = tile_weight DATWIDTH MATSIZE tile s j
    \<and> weight_we (cell_inputs DATWIDTH MATSIZE
          (MMArray_run DATWIDTH MATSIZE ld ins st (1 + s + r)) (ins (1 + s + r)) r j)
    \<and> weight_tag (cell_inputs DATWIDTH MATSIZE
          (MMArray_run DATWIDTH MATSIZE ld ins st (1 + s + r)) (ins (1 + s + r)) r j)
        = s + r
    \<and> weight_write (cell_inputs DATWIDTH MATSIZE
          (MMArray_run DATWIDTH MATSIZE ld ins st (1 + s + r)) (ins (1 + s + r)) r j)
        = (r = MATSIZE - 1 - s)
    \<and> inactive_by_reg (grid (MMArray_run DATWIDTH MATSIZE ld ins st (1 + MATSIZE)) r j)
        = tile_weight DATWIDTH MATSIZE tile (MATSIZE - 1 - r) j"
proof -
  let ?S = "MMArray_run DATWIDTH MATSIZE ld ins st"
  let ?in = "\<lambda>k. cell_inputs DATWIDTH MATSIZE (?S k) (ins k) r j"
  have seq: "programming (?S (Suc t)) \<and> progstep (?S (Suc t)) = t" if "t < MATSIZE" for t
    using sequencer_streams [where ins = ins and st = st, OF idle pulse that] .
  have win: "weight_in (?in (Suc t + r)) = tile_weight DATWIDTH MATSIZE tile t j"
    if "t < MATSIZE" for t
  proof -
    have "weights_in (ins (Suc t)) = tile"
      using that by (intro tile) simp_all
    then show ?thesis
      using seq [OF that] column_weight_in [OF r j, of DATWIDTH ld ins st "Suc t"]
      by (simp add: current_weights_def)
  qed
  have wwe: "weight_we (?in (Suc t + r))" if "t < MATSIZE" for t
    using seq [OF that] column_weight_we [OF r j, of DATWIDTH ld ins st "Suc t"] by simp
  have wtag: "weight_tag (?in (Suc t + r)) = t + r" if "t < MATSIZE" for t
    using seq [OF that] column_weight_tag [OF r j, of DATWIDTH ld ins st "Suc t"] that r
    by (simp add: MATSIZE_def DATWIDTH_def)
  have wwr: "weight_write (?in (Suc t + r)) = (r = MATSIZE - 1 - t)" if "t < MATSIZE" for t
    using wwe [OF that] wtag [OF that] that r
    by (auto simp add: weight_write_def MATSIZE_def)
  have last_row: "MATSIZE - 1 - r < MATSIZE"
    by (simp add: MATSIZE_def)
  have cyc: "Suc (MATSIZE - 1 - r) + r = MATSIZE"
    using r by (simp add: MATSIZE_def)
  have "weight_write (?in MATSIZE)"
    using wwr [OF last_row] r unfolding cyc by (simp add: MATSIZE_def)
  moreover have "weight_in (?in MATSIZE) = tile_weight DATWIDTH MATSIZE tile (MATSIZE - 1 - r) j"
    using win [OF last_row] unfolding cyc .
  ultimately have final:
    "inactive_by_reg (grid (?S (Suc MATSIZE)) r j)
       = tile_weight DATWIDTH MATSIZE tile (MATSIZE - 1 - r) j"
    using r j by (simp add: grid_step inactive_after_write)
  show ?thesis
    using seq [OF s] win [OF s] wwe [OF s] wtag [OF s] wwr [OF s] final by simp
qed

theorem tile_distributed_after_matsize_cycles_witness:
  "\<not> programming MMArray_reset \<and> weights_we (load_tile 0)
   \<and> programming (MMArray_run DATWIDTH MATSIZE DATWIDTH load_tile MMArray_reset (1 + 1))
   \<and> progstep (MMArray_run DATWIDTH MATSIZE DATWIDTH load_tile MMArray_reset (1 + 1)) = 1
   \<and> weight_in (cell_inputs DATWIDTH MATSIZE
        (MMArray_run DATWIDTH MATSIZE DATWIDTH load_tile MMArray_reset (1 + 1 + 2))
        (load_tile (1 + 1 + 2)) 2 3) = 8
   \<and> weight_tag (cell_inputs DATWIDTH MATSIZE
        (MMArray_run DATWIDTH MATSIZE DATWIDTH load_tile MMArray_reset (1 + 1 + 2))
        (load_tile (1 + 1 + 2)) 2 3) = 3
   \<and> weight_write (cell_inputs DATWIDTH MATSIZE
        (MMArray_run DATWIDTH MATSIZE DATWIDTH load_tile MMArray_reset (1 + 1 + 2))
        (load_tile (1 + 1 + 2)) 2 3)
   \<and> inactive_by_reg
        (grid (MMArray_run DATWIDTH MATSIZE DATWIDTH load_tile MMArray_reset (1 + MATSIZE)) 2 3)
       = 8"
proof -
  have idle: "\<not> programming MMArray_reset"
    by (simp add: MMArray_reset_def)
  have pulse: "weights_we (load_tile 0)"
    by (simp add: load_tile_def)
  have tile: "weights_in (load_tile k) = example_tile" for k
    by (simp add: load_tile_def)
  have bounds: "(1::nat) < MATSIZE" "(2::nat) < MATSIZE" "(3::nat) < MATSIZE"
    by (simp_all add: MATSIZE_def)
  have c: "MATSIZE - 1 - 2 = 1" "(2 = MATSIZE - 1 - 1) = True" "(1::nat) + 2 = 3"
    by (simp_all add: MATSIZE_def)
  from tile_distributed_after_matsize_cycles
    [of MMArray_reset load_tile example_tile 1 2 3 DATWIDTH, OF idle pulse tile bounds]
  show ?thesis
    using idle pulse unfolding c example_tile_1_3 by blast
qed

end
